theory Spec2Isabelle
  imports Complex_Main "HOL-Library.Sublist"
begin

section \<open>Hellwig's method of information capacity: a model of hellwig.py\<close>

text \<open>
  The program reads a table with pandas, computes the correlations of every candidate
  variable with the dependent variable and among the candidates, enumerates the
  combinations of the candidates for a range of sizes, scores every combination and
  prints the one of greatest capacity.

  Numbers. The correlations are numpy float64 values. A value is modelled as a real
  number or one of the three special values of float64; rounding and overflow are not
  modelled. Signed zeros are not modelled either: the only divisor of the program is
  a sum, started at 0, of absolute values, so a divisor that is zero is +0.0.
\<close>

subsection \<open>Values and errors\<close>

type_synonym var = string

datatype fl = Fin real | PInf | NInf | NaN

datatype py_error =
    ValueError string
  | KeyError var
  | IndexError
  | OtherError string

text \<open>\<^verbatim>\<open>abs(x)\<close>\<close>

fun fl_abs :: "fl \<Rightarrow> fl" where
  "fl_abs (Fin r) = Fin \<bar>r\<bar>"
| "fl_abs PInf = PInf"
| "fl_abs NInf = PInf"
| "fl_abs NaN = NaN"

text \<open>
  \<^verbatim>\<open>x ** 2\<close>. The square of a real number is taken exactly. In float64 the square
  of a very small number is 0.0 and the square of a very large one is infinity; what
  is stated below of a zero denominator holds in either case.
\<close>

fun fl_sq :: "fl \<Rightarrow> fl" where
  "fl_sq (Fin r) = Fin (r\<^sup>2)"
| "fl_sq PInf = PInf"
| "fl_sq NInf = PInf"
| "fl_sq NaN = NaN"

text \<open>\<^verbatim>\<open>x + y\<close>: infinities of opposite sign give NaN.\<close>

fun fl_add :: "fl \<Rightarrow> fl \<Rightarrow> fl" where
  "fl_add (Fin a) (Fin b) = Fin (a + b)"
| "fl_add (Fin a) PInf = PInf"
| "fl_add (Fin a) NInf = NInf"
| "fl_add PInf (Fin b) = PInf"
| "fl_add PInf PInf = PInf"
| "fl_add PInf NInf = NaN"
| "fl_add NInf (Fin b) = NInf"
| "fl_add NInf PInf = NaN"
| "fl_add NInf NInf = NInf"
| "fl_add NaN y = NaN"
| "fl_add x NaN = NaN"

text \<open>
  \<^verbatim>\<open>x / y\<close> on numpy floats: a division by zero does not raise. It gives an infinity
  of the sign of the dividend, or NaN for 0/0 (and a warning on the error stream).
\<close>

fun fl_div :: "fl \<Rightarrow> fl \<Rightarrow> fl" where
  "fl_div (Fin a) (Fin b) =
     (if b \<noteq> 0 then Fin (a / b)
      else if 0 < a then PInf else if a < 0 then NInf else NaN)"
| "fl_div (Fin a) PInf = Fin 0"
| "fl_div (Fin a) NInf = Fin 0"
| "fl_div PInf (Fin b) = (if 0 \<le> b then PInf else NInf)"
| "fl_div NInf (Fin b) = (if 0 \<le> b then NInf else PInf)"
| "fl_div PInf PInf = NaN"
| "fl_div PInf NInf = NaN"
| "fl_div NInf PInf = NaN"
| "fl_div NInf NInf = NaN"
| "fl_div NaN y = NaN"
| "fl_div x NaN = NaN"

text \<open>\<^verbatim>\<open>x > y\<close>: every comparison with NaN is false.\<close>

fun fl_gt :: "fl \<Rightarrow> fl \<Rightarrow> bool" where
  "fl_gt (Fin a) (Fin b) = (b < a)"
| "fl_gt (Fin a) PInf = False"
| "fl_gt (Fin a) NInf = True"
| "fl_gt PInf (Fin b) = True"
| "fl_gt PInf PInf = False"
| "fl_gt PInf NInf = True"
| "fl_gt NInf y = False"
| "fl_gt NaN y = False"
| "fl_gt x NaN = False"

text \<open>\<^verbatim>\<open>x >= y\<close>\<close>

definition fl_ge :: "fl \<Rightarrow> fl \<Rightarrow> bool" where
  "fl_ge x y = (fl_gt x y \<or> (x = y \<and> x \<noteq> NaN))"

subsection \<open>The scorer: \<^verbatim>\<open>hellwig_singular\<close>\<close>

text \<open>
  \<^verbatim>\<open>correlation_matrix[a][b]\<close> selects column \<open>a\<close> of a pandas DataFrame, then row
  \<open>b\<close>; either lookup raises KeyError on a missing label.
  \<^verbatim>\<open>dependent_var_correlation_matrix\<close> is an ordered dictionary, used for lookups only.
\<close>

type_synonym matrix = "var \<rightharpoonup> (var \<rightharpoonup> fl)"
type_synonym vector = "var \<rightharpoonup> fl"

text \<open>
  The first loop:
  \<^verbatim>\<open>for var in var_combination:
      denominator += abs(correlation_matrix[var_combination[0] ][var])\<close>
  The third argument is the part of the list still to be visited.
\<close>

fun denominator_loop :: "matrix \<Rightarrow> var list \<Rightarrow> var list \<Rightarrow> fl \<Rightarrow> py_error + fl" where
  "denominator_loop cm var_combination [] denominator = Inr denominator"
| "denominator_loop cm var_combination (v # rest) denominator =
     (case var_combination of
        [] \<Rightarrow> Inl IndexError
      | v0 # _ \<Rightarrow>
          (case cm v0 of
             None \<Rightarrow> Inl (KeyError v0)
           | Some col \<Rightarrow>
               (case col v of
                  None \<Rightarrow> Inl (KeyError v)
                | Some x \<Rightarrow>
                    denominator_loop cm var_combination rest
                      (fl_add denominator (fl_abs x)))))"

text \<open>
  The second loop:
  \<^verbatim>\<open>for var in var_combination:
      h += (dependent_var_correlation_matrix[var]**2)/denominator\<close>
\<close>

fun capacity_loop :: "vector \<Rightarrow> var list \<Rightarrow> fl \<Rightarrow> fl \<Rightarrow> py_error + fl" where
  "capacity_loop dv [] denominator h = Inr h"
| "capacity_loop dv (v # rest) denominator h =
     (case dv v of
        None \<Rightarrow> Inl (KeyError v)
      | Some y \<Rightarrow>
          capacity_loop dv rest denominator (fl_add h (fl_div (fl_sq y) denominator)))"

definition hellwig_singular ::
  "matrix \<Rightarrow> vector \<Rightarrow> var list \<Rightarrow> py_error + (var list \<times> fl)" where
  "hellwig_singular cm dv var_combination =
     (case denominator_loop cm var_combination var_combination (Fin 0) of
        Inl e \<Rightarrow> Inl e
      | Inr denominator \<Rightarrow>
          (case capacity_loop dv var_combination denominator (Fin 0) of
             Inl e \<Rightarrow> Inl e
           | Inr h \<Rightarrow> Inr (var_combination, h)))"

subsection \<open>The selection: \<^verbatim>\<open>hellwig\<close>\<close>

type_synonym scored = "var list \<times> fl"

text \<open>
  \<^verbatim>\<open>max(items, key=itemgetter(1))\<close>: the first item is the incumbent, and a later
  item replaces it only when its key is greater (\<^verbatim>\<open>>\<close>). On an empty list
  \<^verbatim>\<open>max\<close> raises ValueError.
\<close>

fun max_loop :: "scored \<Rightarrow> scored list \<Rightarrow> scored" where
  "max_loop maxitem [] = maxitem"
| "max_loop maxitem (item # rest) =
     max_loop (if fl_gt (snd item) (snd maxitem) then item else maxitem) rest"

definition py_max :: "scored list \<Rightarrow> py_error + scored" where
  "py_max items =
     (case items of
        [] \<Rightarrow> Inl (ValueError ''max() arg is an empty sequence'')
      | item # rest \<Rightarrow> Inr (max_loop item rest))"

text \<open>
  \<^verbatim>\<open>Parallel(n_jobs=-1)(delayed(hellwig_singular)(...) for c in combination)\<close>:
  joblib returns the results in the order of the tasks, and the tasks are pure, so
  the parallel map is modelled as a sequential one. When several tasks fail, joblib
  reports the error of whichever ends first; the model reports the first in order.
  Nothing below is stated of a run in which two tasks fail.
\<close>

fun score_all :: "matrix \<Rightarrow> vector \<Rightarrow> var list list \<Rightarrow> py_error + scored list" where
  "score_all cm dv [] = Inr []"
| "score_all cm dv (c # cs) =
     (case hellwig_singular cm dv c of
        Inl e \<Rightarrow> Inl e
      | Inr s \<Rightarrow>
          (case score_all cm dv cs of
             Inl e \<Rightarrow> Inl e
           | Inr ss \<Rightarrow> Inr (s # ss)))"

text \<open>
  The loop of \<^verbatim>\<open>hellwig\<close> over the enumerations, one for each size;
  \<open>best_info\<close> is the list built by \<^verbatim>\<open>best_info.append(h)\<close>.
\<close>

fun hellwig_loop ::
  "matrix \<Rightarrow> vector \<Rightarrow> var list list list \<Rightarrow> scored list \<Rightarrow> py_error + scored list" where
  "hellwig_loop cm dv [] best_info = Inr best_info"
| "hellwig_loop cm dv (comb # rest) best_info =
     (case score_all cm dv comb of
        Inl e \<Rightarrow> Inl e
      | Inr h \<Rightarrow>
          (case py_max h of
             Inl e \<Rightarrow> Inl e
           | Inr h' \<Rightarrow> hellwig_loop cm dv rest (best_info @ [h'])))"

definition hellwig :: "matrix \<Rightarrow> vector \<Rightarrow> var list list list \<Rightarrow> py_error + scored" where
  "hellwig cm dv var_combinations =
     (case hellwig_loop cm dv var_combinations [] of
        Inl e \<Rightarrow> Inl e
      | Inr best_info \<Rightarrow> py_max best_info)"

subsection \<open>The enumeration: \<^verbatim>\<open>combination\<close>\<close>

text \<open>
  Modelled from the spec: \<^verbatim>\<open>itertools.combinations\<close>, to which \<^verbatim>\<open>combination\<close>
  delegates, is code of the Python standard library and is not among the sources.
  The specification asks for all the subsets of the given size, each in the order of
  the pool, in a deterministic order; the order taken here is the one the library
  documents, lexicographic in the positions of the members. The lazy iterator, which
  the program consumes once, is the list of its elements. The size is a natural
  number: \<^verbatim>\<open>main\<close> only passes sizes that are at least 1.
\<close>

fun combinations :: "'a list \<Rightarrow> nat \<Rightarrow> 'a list list" where
  "combinations xs 0 = [ [] ]"
| "combinations [] (Suc r) = []"
| "combinations (x # xs) (Suc r) =
     map ((#) x) (combinations xs r) @ combinations xs (Suc r)"

definition combination :: "'a list \<Rightarrow> nat \<Rightarrow> 'a list list" where
  "combination iterable n = combinations iterable n"

subsection \<open>The driver: \<^verbatim>\<open>main\<close>\<close>

text \<open>
  \<^verbatim>\<open>range(min, len(independent_vars)+1 if max < 1 else max)\<close>: the conditional
  expression is the upper bound of the range, which is exclusive.
\<close>

definition size_range :: "int \<Rightarrow> int \<Rightarrow> nat \<Rightarrow> int list" where
  "size_range min_n max_n len =
     [min_n .. (if max_n < 1 then int len + 1 else max_n) - 1]"

text \<open>
  A column of the table is a pandas Series: its label and its values (NaN for a
  missing value). A DataFrame is the list of its columns, in the order of the file.
\<close>

type_synonym series = "var \<times> fl list"
type_synonym dataframe = "series list"

text \<open>
  pandas is not code of this program; what it does is a parameter of the model.
  Each routine either raises or returns.
  \<^item> \<open>read_csv fname delimiter decimal\<close>: \<^verbatim>\<open>pd.read_csv\<close>;
  \<^item> \<open>series_corr a b\<close>: \<^verbatim>\<open>a.corr(b)\<close> on two Series;
  \<^item> \<open>frame_corr df\<close>: \<^verbatim>\<open>df.corr()\<close>, the matrix of the pairwise correlations.
\<close>

record pandas =
  read_csv :: "string \<Rightarrow> string \<Rightarrow> string \<Rightarrow> py_error + dataframe"
  series_corr :: "series \<Rightarrow> series \<Rightarrow> py_error + fl"
  frame_corr :: "dataframe \<Rightarrow> py_error + matrix"

text \<open>What the program does to the outside, in the order it does it.\<close>

datatype event =
    EvReadCsv string
  | EvSeriesCorr var
  | EvFrameCorr
  | EvPrint "var list" fl

text \<open>
  \<^verbatim>\<open>for var in independent_vars:
      yx_corrs[var] = df[dependent_var].corr(df[var])\<close>
  \<^verbatim>\<open>df[label]\<close> raises KeyError when no column has the label.
\<close>

fun yx_corrs_loop ::
  "pandas \<Rightarrow> dataframe \<Rightarrow> var \<Rightarrow> var list \<Rightarrow> vector \<Rightarrow> event list
     \<Rightarrow> event list \<times> (py_error + vector)" where
  "yx_corrs_loop lib df dependent_var [] yx_corrs tr = (tr, Inr yx_corrs)"
| "yx_corrs_loop lib df dependent_var (v # rest) yx_corrs tr =
     (case map_of df dependent_var of
        None \<Rightarrow> (tr, Inl (KeyError dependent_var))
      | Some ys \<Rightarrow>
          (case map_of df v of
             None \<Rightarrow> (tr, Inl (KeyError v))
           | Some xs \<Rightarrow>
               (case series_corr lib (dependent_var, ys) (v, xs) of
                  Inl e \<Rightarrow> (tr @ [EvSeriesCorr v], Inl e)
                | Inr r \<Rightarrow>
                    yx_corrs_loop lib df dependent_var rest (yx_corrs(v \<mapsto> r))
                      (tr @ [EvSeriesCorr v]))))"

text \<open>
  \<^verbatim>\<open>df.drop(dependent_var, axis=1)\<close>: the frame without the columns of that label.
  It raises KeyError when there is none; \<^verbatim>\<open>main\<close> reaches it only after
  \<^verbatim>\<open>df[dependent_var]\<close> has found one.
\<close>

definition drop_column :: "var \<Rightarrow> dataframe \<Rightarrow> dataframe" where
  "drop_column label df = filter (\<lambda>col. fst col \<noteq> label) df"

text \<open>
  \<^verbatim>\<open>if not independent_vars or len(independent_vars) < 1:
      independent_vars = independent_df.keys()\<close>
  \<open>independent_vars\<close> is \<open>None\<close> when the option \<^verbatim>\<open>-id\<close> is not given.
\<close>

definition candidate_vars :: "var list option \<Rightarrow> dataframe \<Rightarrow> var list" where
  "candidate_vars independent_vars independent_df =
     (case independent_vars of
        None \<Rightarrow> map fst independent_df
      | Some [] \<Rightarrow> map fst independent_df
      | Some (v # vs) \<Rightarrow> v # vs)"

text \<open>
  \<^verbatim>\<open>main\<close>. The result is the trace of what was done and either the error that ended
  the run or the pair that was printed. The line
  \<^verbatim>\<open>df.apply(pd.to_numeric, errors='coerce')\<close> discards its result and has no effect.
  The progress bar of \<^verbatim>\<open>tqdm\<close> is not modelled. The enumerations are made by a
  parallel map over the sizes, which keeps their order.
\<close>

definition main ::
  "pandas \<Rightarrow> string \<Rightarrow> var \<Rightarrow> var list option \<Rightarrow> string \<Rightarrow> string \<Rightarrow> int \<Rightarrow> int
     \<Rightarrow> event list \<times> (py_error + scored)" where
  "main lib fname dependent_var independent_vars delimeter decimal min_n max_n =
     (if min_n < 1 then ([], Inl (ValueError ''min cannot be smaller than 1''))
      else
        (case read_csv lib fname delimeter decimal of
           Inl e \<Rightarrow> ([EvReadCsv fname], Inl e)
         | Inr df \<Rightarrow>
             (case map_of df dependent_var of
                None \<Rightarrow> ([EvReadCsv fname], Inl (KeyError dependent_var))
              | Some dependent_df \<Rightarrow>
                  (let independent_df = drop_column dependent_var df;
                       vars = candidate_vars independent_vars independent_df
                   in
                     (case yx_corrs_loop lib df dependent_var vars Map.empty
                             [EvReadCsv fname] of
                        (tr, Inl e) \<Rightarrow> (tr, Inl e)
                      | (tr, Inr yx_corrs) \<Rightarrow>
                          (let combinations =
                                 map (\<lambda>i. combination vars (nat i))
                                   (size_range min_n max_n (length vars))
                           in
                             (case frame_corr lib independent_df of
                                Inl e \<Rightarrow> (tr @ [EvFrameCorr], Inl e)
                              | Inr cm \<Rightarrow>
                                  (case hellwig cm yx_corrs combinations of
                                     Inl e \<Rightarrow> (tr @ [EvFrameCorr], Inl e)
                                   | Inr best_info \<Rightarrow>
                                       (tr @ [EvFrameCorr,
                                              EvPrint (fst best_info) (snd best_info)],
                                        Inr best_info)))))))))"

subsection \<open>The formulas of the specification\<close>

text \<open>
  The capacity as the specification writes it, over real numbers: the reference
  denominator \<open>D\<close> is the sum over the members \<open>v\<close> of \<open>\<bar>corr(v_ref, v)\<bar>\<close>, with
  \<open>v_ref\<close> the first member; the individual capacity of \<open>v\<close> is its squared
  correlation with the dependent variable, divided by \<open>D\<close>; the total capacity is
  the sum of the individual capacities.
\<close>

definition reference_denominator :: "(var \<Rightarrow> var \<Rightarrow> real) \<Rightarrow> var list \<Rightarrow> real" where
  "reference_denominator corr C = (\<Sum>v\<leftarrow>C. \<bar>corr (hd C) v\<bar>)"

definition individual_capacity :: "(var \<Rightarrow> real) \<Rightarrow> real \<Rightarrow> var \<Rightarrow> real" where
  "individual_capacity dcv D v = (dcv v)\<^sup>2 / D"

definition total_capacity :: "(var \<Rightarrow> var \<Rightarrow> real) \<Rightarrow> (var \<Rightarrow> real) \<Rightarrow> var list \<Rightarrow> real" where
  "total_capacity corr dcv C =
     (\<Sum>v\<leftarrow>C. individual_capacity dcv (reference_denominator corr C) v)"

text \<open>
  The matrix and the vector that the scorer is given hold, at every label the
  combination \<open>C\<close> makes it look up, the real numbers \<open>corr\<close> and \<open>dcv\<close>.
\<close>

definition holds_reals ::
  "matrix \<Rightarrow> vector \<Rightarrow> (var \<Rightarrow> var \<Rightarrow> real) \<Rightarrow> (var \<Rightarrow> real) \<Rightarrow> var list \<Rightarrow> bool" where
  "holds_reals cm dv corr dcv C =
     ((\<forall>v \<in> set C. dv v = Some (Fin (dcv v))) \<and>
      (\<forall>v \<in> set C. \<exists>col. cm (hd C) = Some col \<and> col v = Some (Fin (corr (hd C) v))))"

subsection \<open>Inputs for the examples\<close>

text \<open>A matrix and a vector over the given labels that hold real numbers.\<close>

definition real_matrix :: "var list \<Rightarrow> (var \<Rightarrow> var \<Rightarrow> real) \<Rightarrow> matrix" where
  "real_matrix labels corr =
     (\<lambda>a. if a \<in> set labels
          then Some (\<lambda>b. if b \<in> set labels then Some (Fin (corr a b)) else None)
          else None)"

definition real_vector :: "var list \<Rightarrow> (var \<Rightarrow> real) \<Rightarrow> vector" where
  "real_vector labels dcv = (\<lambda>v. if v \<in> set labels then Some (Fin (dcv v)) else None)"

text \<open>
  The scenario of the specification: \<open>corr(A, B) = 0.5\<close>, \<open>corr(Y, A) = 0.8\<close>,
  \<open>corr(Y, B) = 0.6\<close>.
\<close>

definition scenario_corr :: "var \<Rightarrow> var \<Rightarrow> real" where
  "scenario_corr a b = (if a = b then 1 else 1/2)"

definition scenario_dcv :: "var \<Rightarrow> real" where
  "scenario_dcv v = (if v = ''A'' then 4/5 else 3/5)"

definition scenario_cap :: "var list \<Rightarrow> fl" where
  "scenario_cap C = Fin (total_capacity scenario_corr scenario_dcv C)"

text \<open>A matrix in which every entry of the column of \<open>Z\<close> is 0.\<close>

definition degenerate_corr :: "var \<Rightarrow> var \<Rightarrow> real" where
  "degenerate_corr a b = (if a = ''A'' \<and> b = ''A'' then 1 else 0)"

text \<open>
  Worlds: a pandas whose \<open>read_csv\<close> gives the table \<open>df\<close> and whose correlation
  routines give the entry of \<open>tbl\<close> for two labels; \<open>frame_corr\<close> gives the matrix
  over the labels of the frame it is applied to.
\<close>

definition table_pandas :: "dataframe \<Rightarrow> (var \<Rightarrow> var \<Rightarrow> fl) \<Rightarrow> pandas" where
  "table_pandas df tbl =
     \<lparr> read_csv = (\<lambda>fname delimiter decimal. Inr df),
       series_corr = (\<lambda>a b. Inr (tbl (fst a) (fst b))),
       frame_corr = (\<lambda>frame. Inr (\<lambda>a.
          if a \<in> set (map fst frame)
          then Some (\<lambda>b. if b \<in> set (map fst frame) then Some (tbl a b) else None)
          else None)) \<rparr>"

text \<open>
  A table of four rows with \<open>Y = 3 A + 4 B\<close>, and its Pearson correlations:
  \<open>corr(Y, A) = 12 / (10 * 2)\<close>, \<open>corr(Y, B) = 16 / (10 * 2)\<close>, \<open>corr(A, B) = 0\<close>.
\<close>

definition example_df :: dataframe where
  "example_df =
     [(''Y'', [Fin 7, Fin 1, Fin (-1), Fin (-7)]),
      (''A'', [Fin 1, Fin (-1), Fin 1, Fin (-1)]),
      (''B'', [Fin 1, Fin 1, Fin (-1), Fin (-1)])]"

definition example_tbl :: "var \<Rightarrow> var \<Rightarrow> fl" where
  "example_tbl a b =
     (if a = b then Fin 1
      else if (a, b) = (''Y'', ''A'') \<or> (a, b) = (''A'', ''Y'') then Fin (3/5)
      else if (a, b) = (''Y'', ''B'') \<or> (a, b) = (''B'', ''Y'') then Fin (4/5)
      else Fin 0)"

text \<open>
  A table of a single row. On a series of fewer than two observations the correlation
  routines of pandas return NaN and do not raise.
\<close>

definition one_row_df :: dataframe where
  "one_row_df = [(''Y'', [Fin 1]), (''A'', [Fin 2])]"

definition undefined_tbl :: "var \<Rightarrow> var \<Rightarrow> fl" where
  "undefined_tbl a b = NaN"

text \<open>A matrix and a vector over the given labels with any float values.\<close>

definition fl_matrix :: "var list \<Rightarrow> (var \<Rightarrow> var \<Rightarrow> fl) \<Rightarrow> matrix" where
  "fl_matrix labels tbl =
     (\<lambda>a. if a \<in> set labels
          then Some (\<lambda>b. if b \<in> set labels then Some (tbl a b) else None)
          else None)"

definition fl_vector :: "var list \<Rightarrow> (var \<Rightarrow> fl) \<Rightarrow> vector" where
  "fl_vector labels tbl = (\<lambda>v. if v \<in> set labels then Some (tbl v) else None)"

text \<open>
  A table whose column \<open>A\<close> is constant: pandas gives NaN for every correlation
  with \<open>A\<close>, also for that of \<open>A\<close> with itself. \<open>corr(Y, B) = 16 / (10 * 2)\<close>.
\<close>

definition constant_df :: dataframe where
  "constant_df =
     [(''Y'', [Fin 7, Fin 1, Fin (-1), Fin (-7)]),
      (''A'', [Fin 1, Fin 1, Fin 1, Fin 1]),
      (''B'', [Fin 1, Fin 1, Fin (-1), Fin (-1)])]"

definition constant_tbl :: "var \<Rightarrow> var \<Rightarrow> fl" where
  "constant_tbl a b =
     (if a = ''A'' \<or> b = ''A'' then NaN
      else if a = b then Fin 1
      else Fin (4/5))"

text \<open>
  A matrix with diagonal 1 whose other entries are NaN, as pandas gives for two
  columns that have no row in which both hold a value.
\<close>

definition gap_tbl :: "var \<Rightarrow> var \<Rightarrow> fl" where
  "gap_tbl a b = (if a = b then Fin 1 else NaN)"

section \<open>Auxiliary facts\<close>

subsection \<open>The two loops of the scorer\<close>

lemma denominator_loop_reals:
  assumes "vc \<noteq> []"
    and "\<forall>v \<in> set rest. \<exists>col. cm (hd vc) = Some col \<and> col v = Some (Fin (corr (hd vc) v))"
  shows "denominator_loop cm vc rest (Fin d) = Inr (Fin (d + (\<Sum>v\<leftarrow>rest. \<bar>corr (hd vc) v\<bar>)))"
  using assms
proof (induction rest arbitrary: d)
  case Nil
  then show ?case by simp
next
  case (Cons v rest)
  from Cons.prems obtain v0 t where vc: "vc = v0 # t" by (cases vc) auto
  from Cons.prems obtain col where col: "cm v0 = Some col" "col v = Some (Fin (corr v0 v))"
    using vc by auto
  have "denominator_loop cm vc (v # rest) (Fin d)
        = denominator_loop cm vc rest (Fin (d + \<bar>corr v0 v\<bar>))"
    using vc col by simp
  also have "\<dots> = Inr (Fin ((d + \<bar>corr v0 v\<bar>) + (\<Sum>u\<leftarrow>rest. \<bar>corr (hd vc) u\<bar>)))"
    using Cons.IH [of "d + \<bar>corr v0 v\<bar>"] Cons.prems by simp
  finally show ?case using vc by (simp add: add.assoc)
qed

lemma capacity_loop_reals:
  assumes "D \<noteq> 0" and "\<forall>v \<in> set rest. dv v = Some (Fin (dcv v))"
  shows "capacity_loop dv rest (Fin D) (Fin h) = Inr (Fin (h + (\<Sum>v\<leftarrow>rest. (dcv v)\<^sup>2 / D)))"
  using assms
  by (induction rest arbitrary: h) (simp_all add: add.assoc)

lemma capacity_loop_NaN:
  assumes "\<forall>v \<in> set rest. dv v \<noteq> None"
  shows "capacity_loop dv rest D NaN = Inr NaN"
  using assms by (induction rest) auto

lemma zero_term: "fl_div (fl_sq y) (Fin 0) = PInf \<or> fl_div (fl_sq y) (Fin 0) = NaN"
  by (cases y) auto

lemma zero_term_NaN: "y = Fin 0 \<or> y = NaN \<Longrightarrow> fl_div (fl_sq y) (Fin 0) = NaN"
  by auto

lemma fl_add_special:
  assumes "h = Fin 0 \<or> h = PInf \<or> h = NaN" and "t = PInf \<or> t = NaN"
  shows "fl_add h t = PInf \<or> fl_add h t = NaN"
  using assms by auto

lemma capacity_loop_zero_special:
  assumes "\<forall>v \<in> set rest. dv v \<noteq> None" and "h = PInf \<or> h = NaN"
  shows "\<exists>h'. capacity_loop dv rest (Fin 0) h = Inr h' \<and> (h' = PInf \<or> h' = NaN)"
  using assms
proof (induction rest arbitrary: h)
  case Nil
  then show ?case by simp
next
  case (Cons v rest)
  from Cons.prems(1) obtain y where y: "dv v = Some y" by auto
  let ?h = "fl_add h (fl_div (fl_sq y) (Fin 0))"
  have "?h = PInf \<or> ?h = NaN"
    using Cons.prems(2) zero_term [of y] by (intro fl_add_special) auto
  moreover have "\<forall>u \<in> set rest. dv u \<noteq> None" using Cons.prems(1) by simp
  ultimately have "\<exists>h'. capacity_loop dv rest (Fin 0) ?h = Inr h' \<and> (h' = PInf \<or> h' = NaN)"
    by (rule Cons.IH [rotated])
  then show ?case using y by simp
qed

lemma capacity_loop_zero_NaN:
  assumes "\<forall>v \<in> set rest. dv v \<noteq> None"
    and "\<exists>v \<in> set rest. dv v = Some (Fin 0) \<or> dv v = Some NaN"
    and "h = Fin 0 \<or> h = PInf \<or> h = NaN"
  shows "capacity_loop dv rest (Fin 0) h = Inr NaN"
  using assms
proof (induction rest arbitrary: h)
  case Nil
  then show ?case by simp
next
  case (Cons v rest)
  from Cons.prems(1) obtain y where y: "dv v = Some y" by auto
  let ?h = "fl_add h (fl_div (fl_sq y) (Fin 0))"
  have all: "\<forall>u \<in> set rest. dv u \<noteq> None" using Cons.prems(1) by simp
  have step: "capacity_loop dv (v # rest) (Fin 0) h = capacity_loop dv rest (Fin 0) ?h"
    using y by simp
  show ?case
  proof (cases "y = Fin 0 \<or> y = NaN")
    case True
    then have "fl_div (fl_sq y) (Fin 0) = NaN" by (rule zero_term_NaN)
    then have "?h = NaN" using Cons.prems(3) by auto
    then show ?thesis using step capacity_loop_NaN [OF all] by simp
  next
    case False
    with Cons.prems(2) y
    have ex: "\<exists>u \<in> set rest. dv u = Some (Fin 0) \<or> dv u = Some NaN" by auto
    have "?h = PInf \<or> ?h = NaN"
      using Cons.prems(3) zero_term [of y] by (intro fl_add_special) auto
    then have "?h = Fin 0 \<or> ?h = PInf \<or> ?h = NaN" by blast
    with all ex have "capacity_loop dv rest (Fin 0) ?h = Inr NaN" by (rule Cons.IH)
    with step show ?thesis by simp
  qed
qed

lemma denominator_loop_holds_reals:
  assumes "holds_reals cm dv corr dcv C" and "C \<noteq> []"
  shows "denominator_loop cm C C (Fin 0) = Inr (Fin (reference_denominator corr C))"
  using denominator_loop_reals [of C C cm corr 0] assms
  by (simp add: holds_reals_def reference_denominator_def)

lemma hellwig_singular_reals:
  assumes "holds_reals cm dv corr dcv C" and "reference_denominator corr C \<noteq> 0"
  shows "hellwig_singular cm dv C = Inr (C, Fin (total_capacity corr dcv C))"
proof -
  from assms(2) have ne: "C \<noteq> []" by (auto simp: reference_denominator_def)
  have d: "denominator_loop cm C C (Fin 0) = Inr (Fin (reference_denominator corr C))"
    using assms(1) ne by (rule denominator_loop_holds_reals)
  have "capacity_loop dv C (Fin (reference_denominator corr C)) (Fin 0)
        = Inr (Fin (total_capacity corr dcv C))"
    using capacity_loop_reals [of "reference_denominator corr C" C dv dcv 0] assms
    by (simp add: holds_reals_def total_capacity_def individual_capacity_def)
  with d show ?thesis by (simp add: hellwig_singular_def)
qed

lemma reference_denominator_ge_1:
  assumes "C \<noteq> []" and "corr (hd C) (hd C) = 1"
  shows "1 \<le> reference_denominator corr C"
proof -
  from assms(1) obtain v0 t where C: "C = v0 # t" by (cases C) auto
  have "0 \<le> (\<Sum>v\<leftarrow>t. \<bar>corr v0 v\<bar>)" by (rule sum_list_nonneg) auto
  then show ?thesis using assms(2) C by (simp add: reference_denominator_def)
qed

lemma total_capacity_bounds:
  assumes "1 \<le> reference_denominator corr C"
  shows "0 \<le> total_capacity corr dcv C"
    and "total_capacity corr dcv C \<le> (\<Sum>v\<leftarrow>C. (dcv v)\<^sup>2)"
proof -
  let ?D = "reference_denominator corr C"
  show "0 \<le> total_capacity corr dcv C"
    unfolding total_capacity_def individual_capacity_def
    using assms by (intro sum_list_nonneg) auto
  have "(dcv v)\<^sup>2 / ?D \<le> (dcv v)\<^sup>2" for v
  proof -
    have "(dcv v)\<^sup>2 * 1 \<le> (dcv v)\<^sup>2 * ?D"
      using assms by (intro mult_left_mono) simp_all
    then show ?thesis using assms by (simp add: divide_le_eq)
  qed
  then show "total_capacity corr dcv C \<le> (\<Sum>v\<leftarrow>C. (dcv v)\<^sup>2)"
    unfolding total_capacity_def individual_capacity_def
    by (intro sum_list_mono) simp
qed

subsection \<open>The enumeration\<close>

lemma length_combinations: "length (combinations xs r) = length xs choose r"
  by (induction xs r rule: combinations.induct) simp_all

lemma set_combinations:
  "set (combinations xs r) = {c. subseq c xs \<and> length c = r}"
proof (induction xs r rule: combinations.induct)
  case (1 xs)
  then show ?case by auto
next
  case (2 r)
  then show ?case by auto
next
  case (3 x xs r)
  show ?case
  proof (intro set_eqI iffI)
    fix c
    assume "c \<in> set (combinations (x # xs) (Suc r))"
    then show "c \<in> {c. subseq c (x # xs) \<and> length c = Suc r}"
      using 3 by auto
  next
    fix c
    assume "c \<in> {c. subseq c (x # xs) \<and> length c = Suc r}"
    then have s: "subseq c (x # xs)" and l: "length c = Suc r" by auto
    from l obtain y c' where c: "c = y # c'" by (cases c) auto
    show "c \<in> set (combinations (x # xs) (Suc r))"
    proof (cases "y = x")
      case True
      with s c have "subseq c' xs" by simp
      with l c True 3 show ?thesis by auto
    next
      case False
      with s c have "subseq c xs" by (simp add: subseq_Cons2_neq)
      with l 3 show ?thesis by auto
    qed
  qed
qed

lemma distinct_combinations:
  "distinct xs \<Longrightarrow> distinct (combinations xs r)"
proof (induction xs r rule: combinations.induct)
  case (3 x xs r)
  have "x \<notin> set c" if "c \<in> set (combinations xs (Suc r))" for c
  proof -
    from that have "subseq c xs" by (simp add: set_combinations)
    then have "set c \<subseteq> set xs" by (auto dest: list_emb_set)
    with 3(3) show ?thesis by auto
  qed
  then have "set (map ((#) x) (combinations xs r)) \<inter> set (combinations xs (Suc r)) = {}"
    by fastforce
  with 3 show ?case by (simp add: distinct_map)
qed simp_all

lemma distinct_member_combinations:
  assumes "distinct xs" and "c \<in> set (combinations xs r)"
  shows "distinct c"
proof -
  from assms(2) have "c \<in> set (subseqs xs)" by (simp add: set_combinations)
  then show ?thesis using assms(1) by (rule subseqs_distinctD)
qed

subsection \<open>The order on the values and the loop of \<^verbatim>\<open>max\<close>\<close>

lemma fl_gt_trans: "fl_gt a b \<Longrightarrow> fl_gt b c \<Longrightarrow> fl_gt a c"
  by (cases a; cases b; cases c) simp_all

lemma fl_gt_neg_trans:
  "b \<noteq> NaN \<Longrightarrow> \<not> fl_gt a b \<Longrightarrow> \<not> fl_gt b c \<Longrightarrow> \<not> fl_gt a c"
  by (cases a; cases b; cases c) simp_all

lemma not_fl_gt_ge: "a \<noteq> NaN \<Longrightarrow> b \<noteq> NaN \<Longrightarrow> \<not> fl_gt a b \<Longrightarrow> fl_ge b a"
  by (cases a; cases b) (auto simp: fl_ge_def)

lemma fl_gt_ge_trans: "fl_gt a b \<Longrightarrow> fl_ge b c \<Longrightarrow> fl_gt a c"
  by (auto simp: fl_ge_def dest: fl_gt_trans)

lemma max_loop_append: "max_loop m (xs @ ys) = max_loop (max_loop m xs) ys"
  by (induction xs arbitrary: m) simp_all

lemma max_loop_in: "max_loop m xs \<in> set (m # xs)"
  by (induction xs arbitrary: m) auto

lemma max_loop_first_maximum:
  assumes "\<forall>x \<in> set (m # xs). snd x \<noteq> NaN"
  shows "\<exists>ys zs. m # xs = ys @ max_loop m xs # zs \<and>
           (\<forall>y \<in> set ys. fl_gt (snd (max_loop m xs)) (snd y)) \<and>
           (\<forall>z \<in> set zs. fl_ge (snd (max_loop m xs)) (snd z))"
  using assms
proof (induction xs arbitrary: m)
  case Nil
  show ?case by (intro exI [of _ "[]"]) simp
next
  case (Cons x xs)
  define m' where "m' = (if fl_gt (snd x) (snd m) then x else m)"
  define r where "r = max_loop m' xs"
  have r: "max_loop m (x # xs) = r" by (simp add: r_def m'_def)
  have "\<forall>y \<in> set (m' # xs). snd y \<noteq> NaN" using Cons.prems by (auto simp: m'_def)
  from Cons.IH [OF this] obtain ys zs where
    dec: "m' # xs = ys @ r # zs"
    and lt: "\<forall>y \<in> set ys. fl_gt (snd r) (snd y)"
    and ge: "\<forall>z \<in> set zs. fl_ge (snd r) (snd z)" unfolding r_def by blast
  have nm: "snd m \<noteq> NaN" and nx: "snd x \<noteq> NaN" using Cons.prems by auto
  show ?case
  proof (cases "fl_gt (snd x) (snd m)")
    case True
    then have dec': "x # xs = ys @ r # zs" using dec by (simp add: m'_def)
    have "fl_gt (snd r) (snd m)"
    proof (cases ys)
      case Nil
      with dec' have "r = x" by simp
      with True show ?thesis by simp
    next
      case (Cons y ys')
      with dec' have "y = x" by simp
      with lt Cons have "fl_gt (snd r) (snd x)" by simp
      then show ?thesis using True by (rule fl_gt_trans)
    qed
    with dec' lt ge have
      "m # x # xs = (m # ys) @ r # zs \<and>
       (\<forall>y \<in> set (m # ys). fl_gt (snd r) (snd y)) \<and>
       (\<forall>z \<in> set zs. fl_ge (snd r) (snd z))" by simp
    then show ?thesis unfolding r by blast
  next
    case False
    then have dec': "m # xs = ys @ r # zs" using dec by (simp add: m'_def)
    from False nm nx have mx: "fl_ge (snd m) (snd x)" by (intro not_fl_gt_ge)
    show ?thesis
    proof (cases ys)
      case Nil
      with dec' have "r = m" "zs = xs" by simp_all
      with ge mx have
        "m # x # xs = [] @ r # (x # xs) \<and>
         (\<forall>y \<in> set []. fl_gt (snd r) (snd y)) \<and>
         (\<forall>z \<in> set (x # xs). fl_ge (snd r) (snd z))" by simp
      then show ?thesis unfolding r by blast
    next
      case (Cons y ys')
      with dec' have y: "y = m" and xs: "xs = ys' @ r # zs" by simp_all
      from lt Cons y have "fl_gt (snd r) (snd m)" by simp
      then have "fl_gt (snd r) (snd x)" using mx by (rule fl_gt_ge_trans)
      with lt ge Cons y xs have
        "m # x # xs = (m # x # ys') @ r # zs \<and>
         (\<forall>y \<in> set (m # x # ys'). fl_gt (snd r) (snd y)) \<and>
         (\<forall>z \<in> set zs. fl_ge (snd r) (snd z))" by simp
      then show ?thesis unfolding r by blast
    qed
  qed
qed

text \<open>One step of the loop of \<^verbatim>\<open>max\<close> is associative on values that are not NaN.\<close>

lemma step_assoc:
  assumes "snd x \<noteq> NaN"
  shows "(let s = (if fl_gt (snd y) (snd x) then y else x)
          in if fl_gt (snd s) (snd m) then s else m)
       = (let t = (if fl_gt (snd x) (snd m) then x else m)
          in if fl_gt (snd y) (snd t) then y else t)"
  using assms fl_gt_trans [of "snd y" "snd x" "snd m"]
    fl_gt_neg_trans [of "snd x" "snd y" "snd m"]
  by (auto simp: Let_def)

lemma step_max_loop:
  assumes "\<forall>z \<in> set (x # xs). snd z \<noteq> NaN"
  shows "(if fl_gt (snd (max_loop x xs)) (snd m) then max_loop x xs else m)
         = max_loop (if fl_gt (snd x) (snd m) then x else m) xs"
  using assms
proof (induction xs arbitrary: x m)
  case Nil
  then show ?case by simp
next
  case (Cons y ys)
  let ?s = "if fl_gt (snd y) (snd x) then y else x"
  let ?t = "if fl_gt (snd x) (snd m) then x else m"
  have "\<forall>z \<in> set (?s # ys). snd z \<noteq> NaN" using Cons.prems by auto
  then have IH: "(if fl_gt (snd (max_loop ?s ys)) (snd m) then max_loop ?s ys else m)
        = max_loop (if fl_gt (snd ?s) (snd m) then ?s else m) ys"
    by (rule Cons.IH)
  have B: "(if fl_gt (snd ?s) (snd m) then ?s else m)
             = (if fl_gt (snd y) (snd ?t) then y else ?t)"
    using step_assoc [of x y m] Cons.prems by (simp add: Let_def)
  have "(if fl_gt (snd (max_loop x (y # ys))) (snd m) then max_loop x (y # ys) else m)
        = (if fl_gt (snd (max_loop ?s ys)) (snd m) then max_loop ?s ys else m)"
    by (simp only: max_loop.simps)
  also have "\<dots> = max_loop (if fl_gt (snd ?s) (snd m) then ?s else m) ys"
    by (rule IH)
  also have "\<dots> = max_loop (if fl_gt (snd y) (snd ?t) then y else ?t) ys"
    by (simp only: B)
  also have "\<dots> = max_loop ?t (y # ys)"
    by (simp only: max_loop.simps)
  finally show ?case .
qed

lemma max_loop_groups:
  assumes "\<forall>g \<in> set gs. g \<noteq> []" and "\<forall>x \<in> set (concat gs). snd x \<noteq> NaN"
  shows "max_loop m (map (\<lambda>g. max_loop (hd g) (tl g)) gs) = max_loop m (concat gs)"
  using assms
proof (induction gs arbitrary: m)
  case Nil
  then show ?case by simp
next
  case (Cons g gs)
  from Cons.prems obtain x xs where g: "g = x # xs" by (cases g) auto
  have "\<forall>z \<in> set (x # xs). snd z \<noteq> NaN" using Cons.prems g by auto
  from step_max_loop [OF this, of m]
  have "(if fl_gt (snd (max_loop x xs)) (snd m) then max_loop x xs else m) = max_loop m g"
    using g by simp
  then have "max_loop m (map (\<lambda>g. max_loop (hd g) (tl g)) (g # gs))
        = max_loop (max_loop m g) (map (\<lambda>g. max_loop (hd g) (tl g)) gs)"
    using g by simp
  also have "\<dots> = max_loop (max_loop m g) (concat gs)"
    using Cons.prems by (intro Cons.IH) auto
  finally show ?case by (simp add: max_loop_append)
qed

lemma score_all_map:
  assumes "\<forall>c \<in> set cs. hellwig_singular cm dv c = Inr (c, cap c)"
  shows "score_all cm dv cs = Inr (map (\<lambda>c. (c, cap c)) cs)"
  using assms by (induction cs) simp_all

lemma hellwig_loop_map:
  assumes "\<forall>comb \<in> set vcs. comb \<noteq> []"
    and "\<forall>c \<in> set (concat vcs). hellwig_singular cm dv c = Inr (c, cap c)"
  shows "hellwig_loop cm dv vcs best_info
         = Inr (best_info @ map (\<lambda>g. max_loop (hd g) (tl g))
                  (map (map (\<lambda>c. (c, cap c))) vcs))"
  using assms
proof (induction vcs arbitrary: best_info)
  case Nil
  then show ?case by simp
next
  case (Cons comb vcs)
  from Cons.prems obtain c cs where comb: "comb = c # cs" by (cases comb) auto
  have "score_all cm dv comb = Inr (map (\<lambda>c. (c, cap c)) comb)"
    using Cons.prems by (intro score_all_map) simp
  moreover have "hellwig_loop cm dv vcs (best_info @ [max_loop (c, cap c) (map (\<lambda>c. (c, cap c)) cs)])
     = Inr ((best_info @ [max_loop (c, cap c) (map (\<lambda>c. (c, cap c)) cs)]) @
            map (\<lambda>g. max_loop (hd g) (tl g)) (map (map (\<lambda>c. (c, cap c))) vcs))"
    using Cons.prems by (intro Cons.IH) auto
  ultimately show ?case using comb by (simp add: py_max_def)
qed

lemma hellwig_flat:
  assumes "vcs \<noteq> []" and "\<forall>comb \<in> set vcs. comb \<noteq> []"
    and "\<forall>c \<in> set (concat vcs). hellwig_singular cm dv c = Inr (c, cap c) \<and> cap c \<noteq> NaN"
  shows "hellwig cm dv vcs = py_max (map (\<lambda>c. (c, cap c)) (concat vcs))"
proof -
  from assms(1) obtain comb rest where vcs: "vcs = comb # rest" by (cases vcs) auto
  from assms(2) vcs obtain c cs where comb: "comb = c # cs" by (cases comb) auto
  let ?sc = "\<lambda>c. (c, cap c)"
  let ?gs = "map (map ?sc) rest"
  have loop: "hellwig_loop cm dv vcs []
        = Inr (map (\<lambda>g. max_loop (hd g) (tl g)) (map (map ?sc) vcs))"
    using hellwig_loop_map [of vcs cm dv cap "[]"] assms(2,3) by simp
  have ne: "\<forall>g \<in> set ?gs. g \<noteq> []" using assms(2) vcs by auto
  have nn: "\<forall>x \<in> set (concat ?gs). snd x \<noteq> NaN" using assms(3) vcs by auto
  have "hellwig cm dv vcs
        = Inr (max_loop (max_loop (?sc c) (map ?sc cs)) (map (\<lambda>g. max_loop (hd g) (tl g)) ?gs))"
    using loop vcs comb by (simp add: hellwig_def py_max_def)
  also have "\<dots> = Inr (max_loop (max_loop (?sc c) (map ?sc cs)) (concat ?gs))"
    using max_loop_groups [OF ne nn] by simp
  also have "\<dots> = py_max (map ?sc (concat vcs))"
    using vcs comb by (simp add: py_max_def max_loop_append map_concat)
  finally show ?thesis .
qed

lemma max_loop_absorbing:
  assumes "snd m = PInf \<or> snd m = NaN"
  shows "max_loop m xs = m"
  using assms
proof (induction xs)
  case Nil
  then show ?case by simp
next
  case (Cons x xs)
  have "\<not> fl_gt (snd x) (snd m)"
    using Cons.prems by (cases "snd x") auto
  with Cons show ?case by simp
qed

lemma hellwig_loop_extends:
  "hellwig_loop cm dv vcs best_info = Inr bi \<Longrightarrow> \<exists>more. bi = best_info @ more"
proof (induction vcs arbitrary: best_info)
  case Nil
  then show ?case by simp
next
  case (Cons comb vcs)
  from Cons.prems obtain h h' where
    "score_all cm dv comb = Inr h" "py_max h = Inr h'"
    "hellwig_loop cm dv vcs (best_info @ [h']) = Inr bi"
    by (auto split: sum.splits)
  from Cons.IH [OF this(3)] show ?case by auto
qed

lemma hellwig_first_absorbing:
  assumes s: "hellwig_singular cm dv C = Inr (C, h)" and h: "h = PInf \<or> h = NaN"
    and r: "hellwig cm dv ((C # cs) # rest) = Inr r"
  shows "r = (C, h)"
proof -
  from r obtain bi where loop: "hellwig_loop cm dv ((C # cs) # rest) [] = Inr bi"
    and pm: "py_max bi = Inr r"
    by (auto simp: hellwig_def split: sum.splits)
  from loop s obtain ss where ss: "score_all cm dv cs = Inr ss"
    by (auto split: sum.splits)
  have first: "py_max ((C, h) # ss) = Inr (C, h)"
    using h by (simp add: py_max_def max_loop_absorbing)
  from loop s ss first have "hellwig_loop cm dv rest [(C, h)] = Inr bi" by simp
  from hellwig_loop_extends [OF this] obtain more where "bi = (C, h) # more" by auto
  with pm h show ?thesis by (simp add: py_max_def max_loop_absorbing)
qed

subsection \<open>The driver\<close>

lemma yx_corrs_loop_returns:
  assumes "map_of df dependent_var = Some ys"
    and "\<forall>v \<in> set vars. \<exists>xs. map_of df v = Some xs \<and>
           series_corr lib (dependent_var, ys) (v, xs) = Inr (r v)"
  shows "yx_corrs_loop lib df dependent_var vars yx_corrs tr
         = (tr @ map EvSeriesCorr vars,
            Inr (\<lambda>v. if v \<in> set vars then Some (r v) else yx_corrs v))"
  using assms
proof (induction vars arbitrary: yx_corrs tr)
  case Nil
  then show ?case by simp
next
  case (Cons v vars)
  from Cons.prems obtain xs where xs: "map_of df v = Some xs"
    "series_corr lib (dependent_var, ys) (v, xs) = Inr (r v)" by auto
  have "yx_corrs_loop lib df dependent_var (v # vars) yx_corrs tr
        = yx_corrs_loop lib df dependent_var vars (yx_corrs(v \<mapsto> r v)) (tr @ [EvSeriesCorr v])"
    using Cons.prems(1) xs by simp
  also have "\<dots> = ((tr @ [EvSeriesCorr v]) @ map EvSeriesCorr vars,
            Inr (\<lambda>u. if u \<in> set vars then Some (r u) else (yx_corrs(v \<mapsto> r v)) u))"
    using Cons.prems by (intro Cons.IH) auto
  also have "(\<lambda>u. if u \<in> set vars then Some (r u) else (yx_corrs(v \<mapsto> r v)) u)
           = (\<lambda>u. if u \<in> set (v # vars) then Some (r u) else yx_corrs u)"
    by (rule ext) simp
  finally show ?case by simp
qed

lemma main_min_below_1:
  assumes "min_n < 1"
  shows "main lib fname dependent_var independent_vars delimeter decimal min_n max_n
         = ([], Inl (ValueError ''min cannot be smaller than 1''))"
  using assms by (simp add: main_def)

lemma size_range_empty: "max_n < min_n \<Longrightarrow> 1 \<le> max_n \<Longrightarrow> size_range min_n max_n len = []"
  by (simp add: size_range_def)

lemma hellwig_Nil: "hellwig cm dv [] = Inl (ValueError ''max() arg is an empty sequence'')"
  by (simp add: hellwig_def py_max_def)

lemma main_min_above_max:
  assumes "1 \<le> max_n" and "max_n < min_n"
    and "read_csv lib fname delimeter decimal = Inr df"
    and "map_of df dependent_var = Some ys"
    and "\<forall>v \<in> set (candidate_vars independent_vars (drop_column dependent_var df)).
           \<exists>xs. map_of df v = Some xs \<and>
           series_corr lib (dependent_var, ys) (v, xs) = Inr (r v)"
    and "frame_corr lib (drop_column dependent_var df) = Inr cm"
  shows "main lib fname dependent_var independent_vars delimeter decimal min_n max_n
         = (EvReadCsv fname #
              map EvSeriesCorr (candidate_vars independent_vars (drop_column dependent_var df))
              @ [EvFrameCorr],
            Inl (ValueError ''max() arg is an empty sequence''))"
proof -
  let ?vars = "candidate_vars independent_vars (drop_column dependent_var df)"
  have loop: "yx_corrs_loop lib df dependent_var ?vars Map.empty [EvReadCsv fname]
     = ([EvReadCsv fname] @ map EvSeriesCorr ?vars,
        Inr (\<lambda>v. if v \<in> set ?vars then Some (r v) else Map.empty v))"
    using assms(4,5) by (rule yx_corrs_loop_returns)
  have "\<not> min_n < 1" using assms(1,2) by simp
  then show ?thesis
    using assms(3,4,6) loop size_range_empty [OF assms(2,1)] hellwig_Nil
    by (simp add: main_def Let_def)
qed

lemma main_after_correlations:
  assumes "1 \<le> min_n"
    and "read_csv lib fname delimeter decimal = Inr df"
    and "map_of df dependent_var = Some ys"
    and "\<forall>v \<in> set (candidate_vars independent_vars (drop_column dependent_var df)).
           \<exists>xs. map_of df v = Some xs \<and>
           series_corr lib (dependent_var, ys) (v, xs) = Inr (r v)"
    and "frame_corr lib (drop_column dependent_var df) = Inr cm"
  shows "\<exists>res. main lib fname dependent_var independent_vars delimeter decimal min_n max_n
         = (EvReadCsv fname #
              map EvSeriesCorr (candidate_vars independent_vars (drop_column dependent_var df))
              @ [EvFrameCorr]
              @ (case res of Inl e \<Rightarrow> [] | Inr b \<Rightarrow> [EvPrint (fst b) (snd b)]),
            res)"
proof -
  let ?vars = "candidate_vars independent_vars (drop_column dependent_var df)"
  let ?yx = "\<lambda>v. if v \<in> set ?vars then Some (r v) else Map.empty v"
  let ?combs = "map (\<lambda>i. combination ?vars (nat i)) (size_range min_n max_n (length ?vars))"
  have loop: "yx_corrs_loop lib df dependent_var ?vars Map.empty [EvReadCsv fname]
     = ([EvReadCsv fname] @ map EvSeriesCorr ?vars, Inr ?yx)"
    using assms(3,4) by (rule yx_corrs_loop_returns)
  have ge: "\<not> min_n < 1" using assms(1) by simp
  show ?thesis
  proof (cases "hellwig cm ?yx ?combs")
    case (Inl e)
    have "main lib fname dependent_var independent_vars delimeter decimal min_n max_n
         = (EvReadCsv fname # map EvSeriesCorr ?vars @ [EvFrameCorr], Inl e)"
      using ge assms(2,3,5) loop Inl by (simp add: main_def Let_def)
    then show ?thesis by (intro exI [of _ "Inl e"]) simp
  next
    case (Inr b)
    have "main lib fname dependent_var independent_vars delimeter decimal min_n max_n
         = (EvReadCsv fname # map EvSeriesCorr ?vars @ [EvFrameCorr, EvPrint (fst b) (snd b)],
            Inr b)"
      using ge assms(2,3,5) loop Inr by (simp add: main_def Let_def)
    then show ?thesis by (intro exI [of _ "Inr b"]) simp
  qed
qed

section \<open>Properties\<close>

text \<open>
  C1. The claim: with an explicit maximum size \<open>max \<ge> 1\<close>, the sizes enumerated
  and scored are the integers from \<open>min\<close> to \<open>max\<close> inclusive. The program gives
  \<open>max\<close> itself as the exclusive bound of the range, so the size \<open>max\<close> is never
  enumerated, while the default run (no maximum given) does reach the largest size.
  On the example table with \<open>min = 1\<close> and \<open>max = 2\<close> only the single variables are
  scored and \<open>B\<close> is printed with capacity 0.64; the pair \<open>A, B\<close>, of capacity 1, is
  what the default run prints.
\<close>

theorem explicit_max_size_not_enumerated:
  "size_range 1 2 2 = [1] \<and>
   main (table_pandas example_df example_tbl) ''data.csv'' ''Y'' None '';'' '','' 1 2
     = ([EvReadCsv ''data.csv'', EvSeriesCorr ''A'', EvSeriesCorr ''B'', EvFrameCorr,
         EvPrint [''B''] (Fin (16/25))],
        Inr ([''B''], Fin (16/25))) \<and>
   main (table_pandas example_df example_tbl) ''data.csv'' ''Y'' None '';'' '','' 1 (-1)
     = ([EvReadCsv ''data.csv'', EvSeriesCorr ''A'', EvSeriesCorr ''B'', EvFrameCorr,
         EvPrint [''A'', ''B''] (Fin 1)],
        Inr ([''A'', ''B''], Fin 1))"
proof (intro conjI)
  show "size_range 1 2 2 = [1]"
    by (simp add: size_range_def)
  show "main (table_pandas example_df example_tbl) ''data.csv'' ''Y'' None '';'' '','' 1 2
     = ([EvReadCsv ''data.csv'', EvSeriesCorr ''A'', EvSeriesCorr ''B'', EvFrameCorr,
         EvPrint [''B''] (Fin (16/25))],
        Inr ([''B''], Fin (16/25)))"
    by (simp add: main_def table_pandas_def example_df_def example_tbl_def drop_column_def
        candidate_vars_def size_range_def combination_def hellwig_def py_max_def
        hellwig_singular_def Let_def power2_eq_square)
  show "main (table_pandas example_df example_tbl) ''data.csv'' ''Y'' None '';'' '','' 1 (-1)
     = ([EvReadCsv ''data.csv'', EvSeriesCorr ''A'', EvSeriesCorr ''B'', EvFrameCorr,
         EvPrint [''A'', ''B''] (Fin 1)],
        Inr ([''A'', ''B''], Fin 1))"
    by (simp add: main_def table_pandas_def example_df_def example_tbl_def drop_column_def
        candidate_vars_def size_range_def combination_def hellwig_def py_max_def
        hellwig_singular_def Let_def power2_eq_square upto.simps eval_nat_numeral)
qed

text \<open>
  C2. For a combination \<open>C\<close> whose lookups give real numbers and whose reference
  denominator is not zero, the first loop of the scorer computes \<open>D\<close>, the sum over
  the members \<open>v\<close> of \<open>\<bar>corr(v_1, v)\<bar>\<close>, and the scorer returns \<open>C\<close> with the sum
  over the members of their squared correlation with the dependent variable divided
  by \<open>D\<close>.
\<close>

theorem scorer_computes_total_capacity:
  assumes "holds_reals cm dv corr dcv C" and "reference_denominator corr C \<noteq> 0"
  shows "denominator_loop cm C C (Fin 0) = Inr (Fin (reference_denominator corr C)) \<and>
         hellwig_singular cm dv C = Inr (C, Fin (total_capacity corr dcv C))"
proof
  from assms(2) have "C \<noteq> []" by (auto simp: reference_denominator_def)
  with assms(1) show "denominator_loop cm C C (Fin 0) = Inr (Fin (reference_denominator corr C))"
    by (rule denominator_loop_holds_reals)
  from assms show "hellwig_singular cm dv C = Inr (C, Fin (total_capacity corr dcv C))"
    by (rule hellwig_singular_reals)
qed

theorem scorer_computes_total_capacity_witness:
  "holds_reals (real_matrix [''A'', ''B''] scenario_corr) (real_vector [''A'', ''B''] scenario_dcv)
     scenario_corr scenario_dcv [''A'', ''B''] \<and>
   reference_denominator scenario_corr [''A'', ''B''] = 3/2 \<and>
   hellwig_singular (real_matrix [''A'', ''B''] scenario_corr)
     (real_vector [''A'', ''B''] scenario_dcv) [''A'', ''B''] = Inr ([''A'', ''B''], Fin (2/3))"
proof -
  have h: "holds_reals (real_matrix [''A'', ''B''] scenario_corr)
     (real_vector [''A'', ''B''] scenario_dcv) scenario_corr scenario_dcv [''A'', ''B'']"
    by (simp add: holds_reals_def real_matrix_def real_vector_def)
  have d: "reference_denominator scenario_corr [''A'', ''B''] = 3/2"
    by (simp add: reference_denominator_def scenario_corr_def)
  have t: "total_capacity scenario_corr scenario_dcv [''A'', ''B''] = 2/3"
    by (simp add: total_capacity_def individual_capacity_def d scenario_dcv_def
        power2_eq_square)
  from d have "reference_denominator scenario_corr [''A'', ''B''] \<noteq> 0" by simp
  from scorer_computes_total_capacity [OF h this] h d t show ?thesis by simp
qed

text \<open>
  C3. The claim: a combination whose reference denominator is 0 is excluded from
  consideration and can never be returned as the best. The scorer has no test of
  the denominator: it divides, the capacity is infinite, and the selection returns
  the combination. Here the column of \<open>Z\<close> is 0, so \<open>D = 0\<close> for \<open>[Z]\<close>.
\<close>

theorem zero_denominator_selected_counterexample:
  "denominator_loop (real_matrix [''A'', ''Z''] degenerate_corr) [''Z''] [''Z''] (Fin 0)
     = Inr (Fin 0) \<and>
   hellwig (real_matrix [''A'', ''Z''] degenerate_corr) (real_vector [''A'', ''Z''] scenario_dcv)
     [ [ [''A''], [''Z''] ] ] = Inr ([''Z''], PInf)"
  by (simp add: real_matrix_def real_vector_def degenerate_corr_def scenario_dcv_def
      hellwig_def py_max_def hellwig_singular_def power2_eq_square)

text \<open>
  C3, as the program has it. For a non-empty combination whose reference
  denominator, as the first loop computes it, is 0, and whose members all have an
  entry in the vector of the correlations with the dependent variable, the scorer
  does not fail and does not leave the combination out: it divides and returns the
  combination with a capacity that is plus infinity or NaN, and that is NaN when
  some member has the correlation 0 or NaN with the dependent variable. When the
  combination is the first of the first enumeration and the selection returns a
  result, the result is this combination with this capacity.
\<close>

theorem zero_denominator_scored:
  assumes "denominator_loop cm C C (Fin 0) = Inr (Fin 0)" and "C \<noteq> []"
    and "\<forall>v \<in> set C. dv v \<noteq> None"
  shows "\<exists>h. hellwig_singular cm dv C = Inr (C, h) \<and> (h = PInf \<or> h = NaN) \<and>
           ((\<exists>v \<in> set C. dv v = Some (Fin 0) \<or> dv v = Some NaN) \<longrightarrow> h = NaN) \<and>
           (\<forall>cs rest r. hellwig cm dv ((C # cs) # rest) = Inr r \<longrightarrow> r = (C, h))"
proof -
  from assms(2) obtain v vs where C: "C = v # vs" by (cases C) simp_all
  from assms(3) C obtain y where y: "dv v = Some y" by auto
  let ?t = "fl_div (fl_sq y) (Fin 0)"
  have t: "?t = PInf \<or> ?t = NaN" by (rule zero_term)
  then have t': "fl_add (Fin 0) ?t = ?t" by auto
  have rest: "\<forall>u \<in> set vs. dv u \<noteq> None" using assms(3) C by simp
  from capacity_loop_zero_special [OF rest t] obtain h where
    h: "capacity_loop dv vs (Fin 0) ?t = Inr h" "h = PInf \<or> h = NaN" by blast
  have cap: "capacity_loop dv C (Fin 0) (Fin 0) = Inr h"
    using C y t' h(1) by simp
  have s: "hellwig_singular cm dv C = Inr (C, h)"
    using assms(1) cap by (simp add: hellwig_singular_def)
  have n: "h = NaN" if "\<exists>v \<in> set C. dv v = Some (Fin 0) \<or> dv v = Some NaN"
  proof -
    have "capacity_loop dv C (Fin 0) (Fin 0) = Inr NaN"
      using assms(3) that by (rule capacity_loop_zero_NaN) simp
    with cap show ?thesis by simp
  qed
  have b: "r = (C, h)" if "hellwig cm dv ((C # cs) # rest) = Inr r" for cs rest r
    using s h(2) that by (rule hellwig_first_absorbing)
  from s h(2) n b show ?thesis by blast
qed

theorem zero_denominator_scored_witness:
  "denominator_loop (real_matrix [''A'', ''Z''] degenerate_corr) [''Z''] [''Z''] (Fin 0)
     = Inr (Fin 0) \<and>
   (\<exists>h. hellwig_singular (real_matrix [''A'', ''Z''] degenerate_corr)
           (real_vector [''A'', ''Z''] scenario_dcv) [''Z''] = Inr ([''Z''], h) \<and>
        (h = PInf \<or> h = NaN))"
proof -
  have d: "denominator_loop (real_matrix [''A'', ''Z''] degenerate_corr) [''Z''] [''Z''] (Fin 0)
     = Inr (Fin 0)"
    by (simp add: real_matrix_def degenerate_corr_def)
  have n: "[''Z''] \<noteq> ([] :: var list)" by simp
  have a: "\<forall>v \<in> set [''Z'']. real_vector [''A'', ''Z''] scenario_dcv v \<noteq> None"
    by (simp add: real_vector_def)
  from zero_denominator_scored [OF d n a] d show ?thesis by blast
qed

text \<open>
  C4. The claim: every invalid size configuration (\<open>min < 1\<close>, \<open>min > max\<close>, \<open>max\<close>
  above the size of the pool) raises a configuration error before any correlation
  is computed. With \<open>min = 3\<close> and \<open>max = 2\<close>, and with \<open>min = 1\<close> and \<open>max = 4\<close> on
  a pool of two variables, the run fails only in the selection, after all the
  correlations have been computed.
\<close>

theorem late_size_error_counterexample:
  "main (table_pandas example_df example_tbl) ''data.csv'' ''Y'' None '';'' '','' 3 2
     = ([EvReadCsv ''data.csv'', EvSeriesCorr ''A'', EvSeriesCorr ''B'', EvFrameCorr],
        Inl (ValueError ''max() arg is an empty sequence'')) \<and>
   main (table_pandas example_df example_tbl) ''data.csv'' ''Y'' None '';'' '','' 1 4
     = ([EvReadCsv ''data.csv'', EvSeriesCorr ''A'', EvSeriesCorr ''B'', EvFrameCorr],
        Inl (ValueError ''max() arg is an empty sequence''))"
proof (intro conjI)
  show "main (table_pandas example_df example_tbl) ''data.csv'' ''Y'' None '';'' '','' 3 2
     = ([EvReadCsv ''data.csv'', EvSeriesCorr ''A'', EvSeriesCorr ''B'', EvFrameCorr],
        Inl (ValueError ''max() arg is an empty sequence''))"
    by (simp add: main_def table_pandas_def example_df_def example_tbl_def drop_column_def
        candidate_vars_def size_range_def hellwig_def py_max_def Let_def)
  show "main (table_pandas example_df example_tbl) ''data.csv'' ''Y'' None '';'' '','' 1 4
     = ([EvReadCsv ''data.csv'', EvSeriesCorr ''A'', EvSeriesCorr ''B'', EvFrameCorr],
        Inl (ValueError ''max() arg is an empty sequence''))"
    by (simp add: main_def table_pandas_def example_df_def example_tbl_def drop_column_def
        candidate_vars_def size_range_def combination_def hellwig_def py_max_def
        hellwig_singular_def Let_def power2_eq_square upto.simps eval_nat_numeral)
qed

text \<open>
  C4, as the program has it. Only \<open>min < 1\<close> is rejected at the start: the run
  ends with ValueError before the table is read and before any correlation is
  computed, and nothing is printed. \<open>min > max\<close> (with an explicit \<open>max \<ge> 1\<close>) is
  not checked at the start: when the table is read and every correlation is
  computed without error, the run fails afterwards, in the selection, with the
  ValueError of \<^verbatim>\<open>max\<close> on an empty sequence, and nothing is printed. Nor is
  \<open>max\<close> checked against the size of the pool: whatever \<open>max\<close> is, when
  \<open>min \<ge> 1\<close> and the table is read and every correlation is computed without
  error, all the correlations are computed before the run ends, in an error or in
  the printed result.
\<close>

theorem only_min_checked_at_start:
  "(min_n < 1 \<longrightarrow>
      main lib fname dependent_var independent_vars delimeter decimal min_n max_n
        = ([], Inl (ValueError ''min cannot be smaller than 1''))) \<and>
   (1 \<le> max_n \<and> max_n < min_n \<and>
    read_csv lib fname delimeter decimal = Inr df \<and>
    map_of df dependent_var = Some ys \<and>
    (\<forall>v \<in> set (candidate_vars independent_vars (drop_column dependent_var df)).
        \<exists>xs. map_of df v = Some xs \<and>
             series_corr lib (dependent_var, ys) (v, xs) = Inr (r v)) \<and>
    frame_corr lib (drop_column dependent_var df) = Inr cm \<longrightarrow>
      main lib fname dependent_var independent_vars delimeter decimal min_n max_n
        = (EvReadCsv fname #
             map EvSeriesCorr (candidate_vars independent_vars (drop_column dependent_var df))
             @ [EvFrameCorr],
           Inl (ValueError ''max() arg is an empty sequence''))) \<and>
   (1 \<le> min_n \<and>
    read_csv lib fname delimeter decimal = Inr df \<and>
    map_of df dependent_var = Some ys \<and>
    (\<forall>v \<in> set (candidate_vars independent_vars (drop_column dependent_var df)).
        \<exists>xs. map_of df v = Some xs \<and>
             series_corr lib (dependent_var, ys) (v, xs) = Inr (r v)) \<and>
    frame_corr lib (drop_column dependent_var df) = Inr cm \<longrightarrow>
      (\<exists>res. main lib fname dependent_var independent_vars delimeter decimal min_n max_n
        = (EvReadCsv fname #
             map EvSeriesCorr (candidate_vars independent_vars (drop_column dependent_var df))
             @ [EvFrameCorr]
             @ (case res of Inl e \<Rightarrow> [] | Inr b \<Rightarrow> [EvPrint (fst b) (snd b)]),
           res)))"
proof (intro conjI impI)
  assume "min_n < 1"
  then show "main lib fname dependent_var independent_vars delimeter decimal min_n max_n
        = ([], Inl (ValueError ''min cannot be smaller than 1''))"
    by (rule main_min_below_1)
next
  assume "1 \<le> max_n \<and> max_n < min_n \<and>
    read_csv lib fname delimeter decimal = Inr df \<and>
    map_of df dependent_var = Some ys \<and>
    (\<forall>v \<in> set (candidate_vars independent_vars (drop_column dependent_var df)).
        \<exists>xs. map_of df v = Some xs \<and>
             series_corr lib (dependent_var, ys) (v, xs) = Inr (r v)) \<and>
    frame_corr lib (drop_column dependent_var df) = Inr cm"
  then show "main lib fname dependent_var independent_vars delimeter decimal min_n max_n
        = (EvReadCsv fname #
             map EvSeriesCorr (candidate_vars independent_vars (drop_column dependent_var df))
             @ [EvFrameCorr],
           Inl (ValueError ''max() arg is an empty sequence''))"
    by (elim conjE) (rule main_min_above_max)
next
  assume "1 \<le> min_n \<and>
    read_csv lib fname delimeter decimal = Inr df \<and>
    map_of df dependent_var = Some ys \<and>
    (\<forall>v \<in> set (candidate_vars independent_vars (drop_column dependent_var df)).
        \<exists>xs. map_of df v = Some xs \<and>
             series_corr lib (dependent_var, ys) (v, xs) = Inr (r v)) \<and>
    frame_corr lib (drop_column dependent_var df) = Inr cm"
  then show "\<exists>res. main lib fname dependent_var independent_vars delimeter decimal min_n max_n
        = (EvReadCsv fname #
             map EvSeriesCorr (candidate_vars independent_vars (drop_column dependent_var df))
             @ [EvFrameCorr]
             @ (case res of Inl e \<Rightarrow> [] | Inr b \<Rightarrow> [EvPrint (fst b) (snd b)]),
           res)"
    by (elim conjE) (rule main_after_correlations)
qed

theorem only_min_checked_at_start_witness:
  "main (table_pandas example_df example_tbl) ''data.csv'' ''Y'' None '';'' '','' 0 2
     = ([], Inl (ValueError ''min cannot be smaller than 1'')) \<and>
   main (table_pandas example_df example_tbl) ''data.csv'' ''Y'' (Some [''B'']) '';'' '','' 2 1
     = ([EvReadCsv ''data.csv'', EvSeriesCorr ''B'', EvFrameCorr],
        Inl (ValueError ''max() arg is an empty sequence'')) \<and>
   (\<exists>res. main (table_pandas example_df example_tbl) ''data.csv'' ''Y'' (Some [''B''])
       '';'' '','' 1 4
     = ([EvReadCsv ''data.csv'', EvSeriesCorr ''B'', EvFrameCorr]
          @ (case res of Inl e \<Rightarrow> [] | Inr b \<Rightarrow> [EvPrint (fst b) (snd b)]),
        res))"
proof (intro conjI)
  show "main (table_pandas example_df example_tbl) ''data.csv'' ''Y'' None '';'' '','' 0 2
     = ([], Inl (ValueError ''min cannot be smaller than 1''))"
    using only_min_checked_at_start
      [of 0 "table_pandas example_df example_tbl" "''data.csv''" "''Y''" None "'';''" "'',''" 2]
    by simp
  have c: "candidate_vars (Some [''B'']) (drop_column ''Y'' example_df) = [''B'']"
    by (simp add: candidate_vars_def)
  have l: "read_csv (table_pandas example_df example_tbl) ''data.csv'' '';'' '','' = Inr example_df"
    by (simp add: table_pandas_def)
  have y: "map_of example_df ''Y'' = Some [Fin 7, Fin 1, Fin (-1), Fin (-7)]"
    by (simp add: example_df_def)
  have v: "\<forall>v \<in> set (candidate_vars (Some [''B'']) (drop_column ''Y'' example_df)).
         \<exists>xs. map_of example_df v = Some xs \<and>
           series_corr (table_pandas example_df example_tbl)
             (''Y'', [Fin 7, Fin 1, Fin (-1), Fin (-7)]) (v, xs) = Inr (example_tbl ''Y'' v)"
    unfolding c by (simp add: table_pandas_def example_df_def)
  obtain cm where f: "frame_corr (table_pandas example_df example_tbl)
      (drop_column ''Y'' example_df) = Inr cm"
    by (simp add: table_pandas_def)
  note t = only_min_checked_at_start
      [of _ "table_pandas example_df example_tbl" "''data.csv''" "''Y''" "Some [''B'']"
          "'';''" "'',''" _ example_df "[Fin 7, Fin 1, Fin (-1), Fin (-7)]"
          "example_tbl ''Y''" cm]
  from t [of 2 1] l y v f
  show "main (table_pandas example_df example_tbl) ''data.csv'' ''Y'' (Some [''B''])
       '';'' '','' 2 1
     = ([EvReadCsv ''data.csv'', EvSeriesCorr ''B'', EvFrameCorr],
        Inl (ValueError ''max() arg is an empty sequence''))"
    unfolding c by simp
  from t [of 1 4] l y v f
  show "\<exists>res. main (table_pandas example_df example_tbl) ''data.csv'' ''Y'' (Some [''B''])
       '';'' '','' 1 4
     = ([EvReadCsv ''data.csv'', EvSeriesCorr ''B'', EvFrameCorr]
          @ (case res of Inl e \<Rightarrow> [] | Inr b \<Rightarrow> [EvPrint (fst b) (snd b)]),
        res)"
    unfolding c by simp
qed

text \<open>
  C5. With \<open>min < 1\<close> the run ends with the ValueError of the first line of
  \<^verbatim>\<open>main\<close>, whatever the file and the library would do: the trace is empty, so the
  table has not been read.
\<close>

theorem min_checked_before_reading:
  assumes "min_n < 1"
  shows "main lib fname dependent_var independent_vars delimeter decimal min_n max_n
         = ([], Inl (ValueError ''min cannot be smaller than 1''))"
  using assms by (simp add: main_def)

theorem min_checked_before_reading_witness:
  "(0::int) < 1 \<and>
   main (table_pandas one_row_df undefined_tbl) ''data.csv'' ''Y'' None '';'' '','' 0 (-1)
     = ([], Inl (ValueError ''min cannot be smaller than 1''))"
  using min_checked_before_reading
    [of 0 "table_pandas one_row_df undefined_tbl" "''data.csv''" "''Y''" None "'';''" "'',''" "-1"]
  by simp

text \<open>
  C6. A combination of the single variable \<open>v\<close>, scored against a matrix whose
  entry for \<open>(v, v)\<close> is 1, has as its capacity the square of the correlation of
  \<open>v\<close> with the dependent variable, whatever that value is.
\<close>

theorem single_variable_capacity:
  assumes "cm v = Some col" and "col v = Some (Fin 1)" and "dv v = Some y"
  shows "hellwig_singular cm dv [v] = Inr ([v], fl_sq y)"
  using assms by (cases y) (simp_all add: hellwig_singular_def)

theorem single_variable_capacity_witness:
  "hellwig_singular [''A'' \<mapsto> [''A'' \<mapsto> Fin 1] ] [''A'' \<mapsto> Fin (4/5)] [''A'']
     = Inr ([''A''], Fin (16/25))"
  using single_variable_capacity
    [of "[''A'' \<mapsto> [''A'' \<mapsto> Fin 1] ]" "''A''" "[''A'' \<mapsto> Fin 1]"
        "[''A'' \<mapsto> Fin (4/5)]" "Fin (4/5)"]
  by (simp add: power2_eq_square)

text \<open>
  C7. For a pool of \<open>N\<close> variables and a size \<open>k\<close>, the enumeration has
  \<open>N choose k\<close> elements; its elements are exactly the lists of length \<open>k\<close> that take
  members of the pool in the order of the pool; and when the pool has no repeated
  variable, no element occurs twice and no element has a repeated variable. The
  enumeration is a function of the pool and the size, so its order is determined.
\<close>

theorem combination_enumerates_subsets:
  "length (combination pool k) = length pool choose k \<and>
   set (combination pool k) = {c. subseq c pool \<and> length c = k} \<and>
   (distinct pool \<longrightarrow>
      distinct (combination pool k) \<and> (\<forall>c \<in> set (combination pool k). distinct c))"
proof (intro conjI impI ballI)
  show "length (combination pool k) = length pool choose k"
    unfolding combination_def by (rule length_combinations)
  show "set (combination pool k) = {c. subseq c pool \<and> length c = k}"
    unfolding combination_def by (rule set_combinations)
  show "distinct (combination pool k)" if "distinct pool"
    unfolding combination_def using that by (rule distinct_combinations)
  show "distinct c" if "distinct pool" and "c \<in> set (combination pool k)" for c
    using that unfolding combination_def by (rule distinct_member_combinations)
qed

theorem combination_enumerates_subsets_witness:
  "distinct [''A'', ''B'', ''C''] \<and>
   combination [''A'', ''B'', ''C''] 2 = [ [''A'', ''B''], [''A'', ''C''], [''B'', ''C''] ] \<and>
   length (combination [''A'', ''B'', ''C''] 2) = length [''A'', ''B'', ''C''] choose 2 \<and>
   distinct (combination [''A'', ''B'', ''C''] 2) \<and>
   list_all distinct (combination [''A'', ''B'', ''C''] 2)"
proof -
  have d: "distinct [''A'', ''B'', ''C'']" by simp
  have e: "combination [''A'', ''B'', ''C''] 2 = [ [''A'', ''B''], [''A'', ''C''], [''B'', ''C''] ]"
    by (simp add: combination_def eval_nat_numeral)
  note t = combination_enumerates_subsets [of "[''A'', ''B'', ''C'']" 2]
  from t have l: "length (combination [''A'', ''B'', ''C''] 2)
      = length [''A'', ''B'', ''C''] choose 2" by (rule conjunct1)
  from t have "distinct [''A'', ''B'', ''C''] \<longrightarrow>
      distinct (combination [''A'', ''B'', ''C''] 2) \<and>
      (\<forall>c \<in> set (combination [''A'', ''B'', ''C''] 2). distinct c)"
    by (intro conjunct2 [OF conjunct2 [OF t] ])
  with d have r: "distinct (combination [''A'', ''B'', ''C''] 2) \<and>
      (\<forall>c \<in> set (combination [''A'', ''B'', ''C''] 2). distinct c)" by (rule rev_mp)
  from r have r1: "distinct (combination [''A'', ''B'', ''C''] 2)" by (rule conjunct1)
  from r have r2: "list_all distinct (combination [''A'', ''B'', ''C''] 2)"
    unfolding list_all_iff by (rule conjunct2)
  from d e l r1 r2 show ?thesis by (intro conjI)
qed

text \<open>
  C8. The claim: for every run over non-empty enumerations the capacity returned is
  at least that of every other combination scored. A capacity can be NaN (a
  constant column gives NaN correlations), and every comparison with NaN is false:
  a combination of capacity NaN that is met first is kept. On the table with the
  constant column \<open>A\<close> the run prints \<open>A\<close> with capacity NaN, although \<open>B\<close>
  alone has capacity 0.64.
\<close>

theorem nan_capacity_selected_counterexample:
  "hellwig (fl_matrix [''A'', ''B''] constant_tbl) (fl_vector [''A'', ''B''] (constant_tbl ''Y''))
     [ [ [''A''], [''B''] ], [ [''A'', ''B''] ] ] = Inr ([''A''], NaN) \<and>
   hellwig_singular (fl_matrix [''A'', ''B''] constant_tbl)
     (fl_vector [''A'', ''B''] (constant_tbl ''Y'')) [''B''] = Inr ([''B''], Fin (16/25)) \<and>
   \<not> fl_ge NaN (Fin (16/25)) \<and>
   main (table_pandas constant_df constant_tbl) ''data.csv'' ''Y'' None '';'' '','' 1 (-1)
     = ([EvReadCsv ''data.csv'', EvSeriesCorr ''A'', EvSeriesCorr ''B'', EvFrameCorr,
         EvPrint [''A''] NaN],
        Inr ([''A''], NaN))"
proof (intro conjI)
  show "hellwig (fl_matrix [''A'', ''B''] constant_tbl)
      (fl_vector [''A'', ''B''] (constant_tbl ''Y''))
     [ [ [''A''], [''B''] ], [ [''A'', ''B''] ] ] = Inr ([''A''], NaN)"
    by (simp add: fl_matrix_def fl_vector_def constant_tbl_def hellwig_def py_max_def
        hellwig_singular_def power2_eq_square)
  show "hellwig_singular (fl_matrix [''A'', ''B''] constant_tbl)
     (fl_vector [''A'', ''B''] (constant_tbl ''Y'')) [''B''] = Inr ([''B''], Fin (16/25))"
    by (simp add: fl_matrix_def fl_vector_def constant_tbl_def hellwig_singular_def
        power2_eq_square)
  show "\<not> fl_ge NaN (Fin (16/25))"
    by (simp add: fl_ge_def)
  show "main (table_pandas constant_df constant_tbl) ''data.csv'' ''Y'' None '';'' '','' 1 (-1)
     = ([EvReadCsv ''data.csv'', EvSeriesCorr ''A'', EvSeriesCorr ''B'', EvFrameCorr,
         EvPrint [''A''] NaN],
        Inr ([''A''], NaN))"
    by (simp add: main_def table_pandas_def constant_df_def constant_tbl_def drop_column_def
        candidate_vars_def size_range_def combination_def hellwig_def py_max_def
        hellwig_singular_def Let_def power2_eq_square upto.simps eval_nat_numeral)
qed

text \<open>
  C8, as the program has it. Let the enumerations be given in the order of the
  sizes, none of them empty, and let every combination be scored without error to a
  capacity that is not NaN. Then \<^verbatim>\<open>hellwig\<close> returns a combination \<open>best\<close> of
  the enumerations, taken in their order one after the other, such that every
  combination met before \<open>best\<close> has a capacity strictly below that of \<open>best\<close> and
  every combination met after it has a capacity at most that of \<open>best\<close>: the
  capacity returned is the greatest, and of several combinations of the greatest
  capacity the first met is returned, the earlier within a size and the one of the
  smaller size across sizes.
\<close>

theorem hellwig_returns_first_maximum:
  assumes "var_combinations \<noteq> []"
    and "\<forall>comb \<in> set var_combinations. comb \<noteq> []"
    and "\<forall>c \<in> set (concat var_combinations).
           hellwig_singular cm dv c = Inr (c, cap c) \<and> cap c \<noteq> NaN"
  shows "\<exists>before best after.
           concat var_combinations = before @ best # after \<and>
           hellwig cm dv var_combinations = Inr (best, cap best) \<and>
           (\<forall>c \<in> set before. fl_gt (cap best) (cap c)) \<and>
           (\<forall>c \<in> set after. fl_ge (cap best) (cap c))"
proof -
  define sc where "sc = (\<lambda>c. (c, cap c))"
  define every where "every = concat var_combinations"
  from assms(1) obtain comb rest where vcs: "var_combinations = comb # rest"
    by (cases var_combinations) simp_all
  with assms(2) have "comb \<noteq> []" by simp
  then obtain c cs' where comb: "comb = c # cs'" by (cases comb) simp_all
  define cs where "cs = cs' @ concat rest"
  have flat: "every = c # cs" by (simp add: every_def vcs comb cs_def)
  define winner where "winner = max_loop (sc c) (map sc cs)"
  have "hellwig cm dv var_combinations = py_max (map sc every)"
    unfolding sc_def every_def using assms by (rule hellwig_flat)
  then have h: "hellwig cm dv var_combinations = Inr winner"
    by (simp add: flat py_max_def winner_def)
  have nn: "\<forall>x \<in> set (sc c # map sc cs). snd x \<noteq> NaN"
  proof
    fix x assume "x \<in> set (sc c # map sc cs)"
    then have "x \<in> sc ` set every" by (simp add: flat)
    then obtain d where d: "d \<in> set every" "x = sc d" by (rule imageE)
    from d(1) have "d \<in> set (concat var_combinations)" by (simp only: every_def)
    from bspec [OF assms(3) this] have "cap d \<noteq> NaN" by (rule conjunct2)
    with d(2) show "snd x \<noteq> NaN" by (simp add: sc_def)
  qed
  from max_loop_first_maximum [OF nn] obtain ys zs where
    dec: "sc c # map sc cs = ys @ winner # zs"
    and lt: "\<forall>y \<in> set ys. fl_gt (snd winner) (snd y)"
    and ge: "\<forall>z \<in> set zs. fl_ge (snd winner) (snd z)"
    unfolding winner_def by blast
  have "map sc every = ys @ winner # zs"
    unfolding flat list.map by (rule dec)
  then have "\<exists>us vs. every = us @ vs \<and> ys = map sc us \<and> winner # zs = map sc vs"
    by (simp only: map_eq_append_conv)
  then obtain before rest' where
    p1: "every = before @ rest'" "ys = map sc before" "winner # zs = map sc rest'"
    by (elim exE conjE)
  from p1(3) have "\<exists>z zs'. rest' = z # zs' \<and> sc z = winner \<and> map sc zs' = zs"
    by (simp only: Cons_eq_map_conv) blast
  then obtain best after where
    p2: "rest' = best # after" "sc best = winner" "map sc after = zs"
    by (elim exE conjE)
  have "concat var_combinations = before @ best # after"
    using p1(1) p2(1) by (simp add: every_def)
  moreover have "hellwig cm dv var_combinations = Inr (best, cap best)"
    unfolding h p2(2) [symmetric] by (simp add: sc_def)
  moreover have "\<forall>c \<in> set before. fl_gt (cap best) (cap c)"
    using lt unfolding p1(2) p2(2) [symmetric] by (simp add: sc_def)
  moreover have "\<forall>c \<in> set after. fl_ge (cap best) (cap c)"
    using ge unfolding p2(3) [symmetric] p2(2) [symmetric] by (simp add: sc_def)
  ultimately show ?thesis by blast
qed

theorem hellwig_returns_first_maximum_witness:
  "list_all
     (\<lambda>c. hellwig_singular (real_matrix [''A'', ''B''] scenario_corr)
        (real_vector [''A'', ''B''] scenario_dcv) c = Inr (c, scenario_cap c) \<and>
      scenario_cap c \<noteq> NaN)
     (concat [ [ [''A''], [''B''] ], [ [''A'', ''B''] ] ]) \<and>
   (\<exists>before best after.
      concat [ [ [''A''], [''B''] ], [ [''A'', ''B''] ] ] = before @ best # after \<and>
      hellwig (real_matrix [''A'', ''B''] scenario_corr) (real_vector [''A'', ''B''] scenario_dcv)
        [ [ [''A''], [''B''] ], [ [''A'', ''B''] ] ] = Inr (best, scenario_cap best) \<and>
      (\<forall>c \<in> set before. fl_gt (scenario_cap best) (scenario_cap c)) \<and>
      (\<forall>c \<in> set after. fl_ge (scenario_cap best) (scenario_cap c)))"
proof -
  let ?vcs = "[ [ [''A''], [''B''] ], [ [''A'', ''B''] ] ]"
  have n: "?vcs \<noteq> []" by simp
  have e: "\<forall>comb \<in> set ?vcs. comb \<noteq> []" by simp
  have s: "\<forall>c \<in> set (concat ?vcs).
      hellwig_singular (real_matrix [''A'', ''B''] scenario_corr)
        (real_vector [''A'', ''B''] scenario_dcv) c = Inr (c, scenario_cap c) \<and>
      scenario_cap c \<noteq> NaN"
    by (simp add: hellwig_singular_def real_matrix_def real_vector_def scenario_corr_def
        scenario_dcv_def scenario_cap_def total_capacity_def individual_capacity_def
        reference_denominator_def power2_eq_square)
  from s have "list_all
     (\<lambda>c. hellwig_singular (real_matrix [''A'', ''B''] scenario_corr)
        (real_vector [''A'', ''B''] scenario_dcv) c = Inr (c, scenario_cap c) \<and>
      scenario_cap c \<noteq> NaN) (concat ?vcs)"
    unfolding list_all_iff .
  with hellwig_returns_first_maximum [OF n e s] show ?thesis by (intro conjI)
qed

text \<open>
  C9. The claim: a series of fewer than two valid observations makes the
  correlation computation fail with an error that names the variable. The program
  has no such check and no such error: on a table of a single row, where the
  routines of pandas return NaN, the run goes through every step and prints the
  first variable with capacity NaN.
\<close>

theorem one_observation_counterexample:
  "main (table_pandas one_row_df undefined_tbl) ''data.csv'' ''Y'' None '';'' '','' 1 (-1)
     = ([EvReadCsv ''data.csv'', EvSeriesCorr ''A'', EvFrameCorr, EvPrint [''A''] NaN],
        Inr ([''A''], NaN))"
  by (simp add: main_def table_pandas_def one_row_df_def undefined_tbl_def drop_column_def
      candidate_vars_def size_range_def combination_def hellwig_def py_max_def
      hellwig_singular_def Let_def)

text \<open>
  C9, as the program has it. The loop over the candidate variables does not look at
  the number of observations: whenever the dependent variable and every candidate
  are columns of the table and the correlation routine of the library returns a
  value for each candidate (NaN where pandas finds the correlation undefined), the
  loop stores these values, one for each candidate, and ends without error.
\<close>

theorem correlation_loop_stores_library_values:
  assumes "map_of df dependent_var = Some ys"
    and "\<forall>v \<in> set vars. \<exists>xs. map_of df v = Some xs \<and>
           series_corr lib (dependent_var, ys) (v, xs) = Inr (r v)"
  shows "yx_corrs_loop lib df dependent_var vars yx_corrs tr
         = (tr @ map EvSeriesCorr vars,
            Inr (\<lambda>v. if v \<in> set vars then Some (r v) else yx_corrs v))"
  using assms by (rule yx_corrs_loop_returns)

theorem correlation_loop_stores_library_values_witness:
  "map_of one_row_df ''Y'' = Some [Fin 1] \<and>
   map_of one_row_df ''A'' = Some [Fin 2] \<and>
   series_corr (table_pandas one_row_df undefined_tbl) (''Y'', [Fin 1]) (''A'', [Fin 2])
     = Inr NaN \<and>
   yx_corrs_loop (table_pandas one_row_df undefined_tbl) one_row_df ''Y'' [''A''] Map.empty []
     = ([EvSeriesCorr ''A''], Inr (\<lambda>v. if v \<in> set [''A''] then Some NaN else None))"
proof -
  have a: "map_of one_row_df ''Y'' = Some [Fin 1]" by (simp add: one_row_df_def)
  have b: "\<forall>v \<in> set [''A'']. \<exists>xs. map_of one_row_df v = Some xs \<and>
      series_corr (table_pandas one_row_df undefined_tbl) (''Y'', [Fin 1]) (v, xs) = Inr NaN"
    by (simp add: one_row_df_def table_pandas_def undefined_tbl_def)
  from correlation_loop_stores_library_values
    [of one_row_df "''Y''" "[Fin 1]" "[''A'']" "table_pandas one_row_df undefined_tbl"
        "\<lambda>v. NaN" Map.empty "[]", OF a b] a
  show ?thesis by (simp add: one_row_df_def table_pandas_def undefined_tbl_def)
qed

text \<open>
  C10. The claim: a diagonal of 1 alone makes the reference denominator at least 1
  and the capacity a finite number. An entry off the diagonal can be NaN; the
  denominator and the capacity are then NaN.
\<close>

theorem nan_entry_counterexample:
  "gap_tbl ''A'' ''A'' = Fin 1 \<and> gap_tbl ''B'' ''B'' = Fin 1 \<and>
   denominator_loop (fl_matrix [''A'', ''B''] gap_tbl) [''A'', ''B''] [''A'', ''B''] (Fin 0)
     = Inr NaN \<and>
   hellwig_singular (fl_matrix [''A'', ''B''] gap_tbl) (real_vector [''A'', ''B''] scenario_dcv)
     [''A'', ''B''] = Inr ([''A'', ''B''], NaN)"
  by (simp add: gap_tbl_def fl_matrix_def real_vector_def scenario_dcv_def
      hellwig_singular_def power2_eq_square)

text \<open>
  C10, as the program has it. For a non-empty combination \<open>C\<close> whose lookups all
  give real numbers, scored against a matrix whose diagonal entry for the first
  member is 1, the reference denominator that the first loop computes is at least
  1, so the scorer never divides by zero there, and the capacity it returns is a
  real number between 0 and the sum over the members of their squared correlation
  with the dependent variable.
\<close>

theorem capacity_bounded:
  assumes "holds_reals cm dv corr dcv C" and "C \<noteq> []"
    and "corr (hd C) (hd C) = 1"
  shows "\<exists>D H. denominator_loop cm C C (Fin 0) = Inr (Fin D) \<and> 1 \<le> D \<and>
           hellwig_singular cm dv C = Inr (C, Fin H) \<and>
           0 \<le> H \<and> H \<le> (\<Sum>v\<leftarrow>C. (dcv v)\<^sup>2)"
proof -
  have D: "1 \<le> reference_denominator corr C"
    using assms(2,3) by (rule reference_denominator_ge_1)
  then have nz: "reference_denominator corr C \<noteq> 0" by simp
  have "denominator_loop cm C C (Fin 0) = Inr (Fin (reference_denominator corr C))"
    using assms(1,2) by (rule denominator_loop_holds_reals)
  moreover have "hellwig_singular cm dv C = Inr (C, Fin (total_capacity corr dcv C))"
    using assms(1) nz by (rule hellwig_singular_reals)
  moreover have "0 \<le> total_capacity corr dcv C"
    and "total_capacity corr dcv C \<le> (\<Sum>v\<leftarrow>C. (dcv v)\<^sup>2)"
    using D by (rule total_capacity_bounds)+
  ultimately show ?thesis using D by blast
qed

theorem capacity_bounded_witness:
  "holds_reals (real_matrix [''A'', ''B''] scenario_corr) (real_vector [''A'', ''B''] scenario_dcv)
     scenario_corr scenario_dcv [''B'', ''A''] \<and>
   scenario_corr (hd [''B'', ''A'']) (hd [''B'', ''A'']) = 1 \<and>
   (\<exists>D H. denominator_loop (real_matrix [''A'', ''B''] scenario_corr) [''B'', ''A'']
              [''B'', ''A''] (Fin 0) = Inr (Fin D) \<and> 1 \<le> D \<and>
           hellwig_singular (real_matrix [''A'', ''B''] scenario_corr)
             (real_vector [''A'', ''B''] scenario_dcv) [''B'', ''A''] = Inr ([''B'', ''A''], Fin H) \<and>
           0 \<le> H \<and> H \<le> (\<Sum>v\<leftarrow>[''B'', ''A'']. (scenario_dcv v)\<^sup>2))"
proof -
  have h: "holds_reals (real_matrix [''A'', ''B''] scenario_corr)
     (real_vector [''A'', ''B''] scenario_dcv) scenario_corr scenario_dcv [''B'', ''A'']"
    by (simp add: holds_reals_def real_matrix_def real_vector_def)
  have n: "[''B'', ''A''] \<noteq> ([] :: var list)" by simp
  have o: "scenario_corr (hd [''B'', ''A'']) (hd [''B'', ''A'']) = 1"
    by (simp add: scenario_corr_def)
  from capacity_bounded [OF h n o] h o show ?thesis by blast
qed

end
